theory Spec2Isabelle
  imports Main "HOL-Library.Word" "HOL-Library.FSet" "HOL-Library.Sublist"
    "HOL-Library.Product_Lexorder"
begin

unbundle bit_operations_syntax

section \<open>Version edits of the LSM store (\<^verbatim>\<open>yb/rocksdb/db/version_edit.h\<close>)\<close>

text \<open>
  The header declares the file descriptor with its packed identity, the file metadata,
  and the version edit with its inline mutators. Machine integers are words:
  \<^verbatim>\<open>uint64_t\<close> and \<^verbatim>\<open>int64_t\<close> are 64-bit words, \<^verbatim>\<open>uint32_t\<close> and \<^verbatim>\<open>int\<close> are 32-bit
  words (comparison of \<^verbatim>\<open>uint64_t\<close> values is the unsigned order of words). A
  \<^verbatim>\<open>std::string\<close> is a \<open>string\<close>, a \<^verbatim>\<open>boost::optional\<close> an \<open>option\<close>, a pointer an
  optional address (\<open>None\<close> is \<^verbatim>\<open>nullptr\<close>), a \<^verbatim>\<open>std::vector\<close> a list and a \<^verbatim>\<open>std::set\<close> a
  finite set. The C++ members \<^verbatim>\<open>new_files_\<close>, \<^verbatim>\<open>deleted_files_\<close>, ... keep their names
  without the trailing underscore, which an Isabelle name cannot end with.

  The size of a container is a natural number (the sum of the sizes of two containers held
  in memory stays below \<open>2^64\<close>, so \<^verbatim>\<open>size_t\<close> does not wrap).

  An \<^verbatim>\<open>assert\<close> that fails aborts the process; the model returns \<open>Inl AssertionFailed\<close>
  there, so that the fatal path is a value. (The assertions are modelled as compiled in.)
\<close>

type_synonym u64 = "64 word"
type_synonym u32 = "32 word"
type_synonym i64 = "64 word"
type_synonym i32 = "32 word"
type_synonym ptr = "nat option"

datatype error = AssertionFailed | Corruption

subsection \<open>File descriptor and packed identity\<close>

definition kFileNumberMask :: u64 where
  "kFileNumberMask = 0x3FFFFFFFFFFFFFFF"

text \<open>
  Modelled from the spec: \<^verbatim>\<open>PackFileNumberAndPathId\<close> is declared \<^verbatim>\<open>extern\<close> in the header
  and defined in a file that is not at hand. The specification (data model, packing
  invariant) combines the two numbers with the path id as a high-order multiplier of
  \<open>mask + 1\<close> over the low 62 bits holding the file number.
\<close>

definition PackFileNumberAndPathId :: "u64 \<Rightarrow> u64 \<Rightarrow> u64" where
  "PackFileNumberAndPathId number path_id = path_id * (kFileNumberMask + 1) + number"

record FileDescriptor =
  table_reader :: ptr
  packed_number_and_path_id :: u64
  total_file_size :: u64
  base_file_size :: u64

text \<open>
  The four-argument constructor. Its \<^verbatim>\<open>uint32_t path_id\<close> is widened to \<^verbatim>\<open>uint64_t\<close> at the
  call of the packing function.
\<close>

definition FileDescriptor_init :: "u64 \<Rightarrow> u32 \<Rightarrow> u64 \<Rightarrow> u64 \<Rightarrow> FileDescriptor" where
  "FileDescriptor_init number path_id total_size base_size =
     \<lparr>table_reader = None,
      packed_number_and_path_id = PackFileNumberAndPathId number (ucast path_id),
      total_file_size = total_size,
      base_file_size = base_size\<rparr>"

definition GetNumber :: "FileDescriptor \<Rightarrow> u64" where
  "GetNumber d = packed_number_and_path_id d AND kFileNumberMask"

definition GetPathId :: "FileDescriptor \<Rightarrow> u32" where
  "GetPathId d = ucast (packed_number_and_path_id d div (kFileNumberMask + 1))"

definition GetTotalFileSize :: "FileDescriptor \<Rightarrow> u64" where
  "GetTotalFileSize d = total_file_size d"

definition GetBaseFileSize :: "FileDescriptor \<Rightarrow> u64" where
  "GetBaseFileSize d = base_file_size d"

subsection \<open>File metadata\<close>

text \<open>
  \<^verbatim>\<open>OpId\<close>, \<^verbatim>\<open>FileBoundaryValuesBase\<close> and \<^verbatim>\<open>FileBoundaryValues<InternalKey>\<close> are declared
  in other headers. The header at hand builds an \<^verbatim>\<open>OpId\<close> from a term and an index, reads
  the member \<^verbatim>\<open>seqno\<close> of a boundary, and passes a \<^verbatim>\<open>FileBoundaryValuesBase\<close> next to a key
  to \<^verbatim>\<open>UpdateBoundaries\<close>. Following the specification's data model, a boundary is a key
  (the bytes of an \<^verbatim>\<open>InternalKey\<close>), a sequence number and an auxiliary value of an
  extractor-defined type \<open>'a\<close>; the base holds what a boundary holds apart from the key.
\<close>

record OpId =
  op_term :: i64
  op_index :: i64

record 'a FileBoundaryValuesBase =
  seqno :: u64
  aux :: 'a

record 'a BoundaryValues = "'a FileBoundaryValuesBase" +
  key :: string

record 'a FileMetaData =
  refs :: i32
  fd :: FileDescriptor
  being_compacted :: bool
  smallest :: "'a BoundaryValues"
  largest :: "'a BoundaryValues"
  last_op_id :: OpId
  imported :: bool
  table_reader_handle :: ptr
  compensated_file_size :: u64
  num_entries :: u64
  num_deletions :: u64
  raw_key_size :: u64
  raw_value_size :: u64
  init_stats_from_file :: bool
  marked_for_compaction :: bool

subsection \<open>Version edit\<close>

record 'a VersionEdit =
  max_level :: i32
  comparator :: "string option"
  log_number :: "u64 option"
  prev_log_number :: "u64 option"
  next_file_number :: "u64 option"
  max_column_family :: "u32 option"
  last_sequence :: "u64 option"
  flushed_op_id :: OpId
  deleted_files :: "(i32 \<times> u64) fset"
  new_files :: "(i32 \<times> 'a FileMetaData) list"
  column_family :: u32
  is_column_family_drop :: bool
  column_family_name :: "string option"

definition SetComparatorName :: "string \<Rightarrow> 'a VersionEdit \<Rightarrow> 'a VersionEdit" where
  "SetComparatorName name e = e\<lparr>comparator := Some name\<rparr>"

definition SetLogNumber :: "u64 \<Rightarrow> 'a VersionEdit \<Rightarrow> 'a VersionEdit" where
  "SetLogNumber num e = e\<lparr>log_number := Some num\<rparr>"

definition SetPrevLogNumber :: "u64 \<Rightarrow> 'a VersionEdit \<Rightarrow> 'a VersionEdit" where
  "SetPrevLogNumber num e = e\<lparr>prev_log_number := Some num\<rparr>"

definition SetNextFile :: "u64 \<Rightarrow> 'a VersionEdit \<Rightarrow> 'a VersionEdit" where
  "SetNextFile num e = e\<lparr>next_file_number := Some num\<rparr>"

definition SetLastSequence :: "u64 \<Rightarrow> 'a VersionEdit \<Rightarrow> 'a VersionEdit" where
  "SetLastSequence s e = e\<lparr>last_sequence := Some s\<rparr>"

definition SetFlushedOpId :: "OpId \<Rightarrow> 'a VersionEdit \<Rightarrow> 'a VersionEdit" where
  "SetFlushedOpId v e = e\<lparr>flushed_op_id := v\<rparr>"

definition SetMaxColumnFamily :: "u32 \<Rightarrow> 'a VersionEdit \<Rightarrow> 'a VersionEdit" where
  "SetMaxColumnFamily c e = e\<lparr>max_column_family := Some c\<rparr>"

definition SetColumnFamily :: "u32 \<Rightarrow> 'a VersionEdit \<Rightarrow> 'a VersionEdit" where
  "SetColumnFamily c e = e\<lparr>column_family := c\<rparr>"

text \<open>
  \<^verbatim>\<open>AddTestFile\<close> and \<^verbatim>\<open>AddCleanedFile\<close> start from a default-constructed
  \<^verbatim>\<open>FileMetaData\<close>. The constructor \<^verbatim>\<open>FileMetaData()\<close> is declared in the header and defined
  elsewhere, so the value it builds is the parameter \<open>f0\<close> of both functions.
\<close>

definition AddTestFile ::
  "'a FileMetaData \<Rightarrow> i32 \<Rightarrow> FileDescriptor \<Rightarrow> 'a BoundaryValues \<Rightarrow> 'a BoundaryValues \<Rightarrow> bool
     \<Rightarrow> 'a VersionEdit \<Rightarrow> error + 'a VersionEdit" where
  "AddTestFile f0 level d sm lg marked e =
     (if \<not> seqno sm \<le> seqno lg then Inl AssertionFailed
      else let f = f0\<lparr>fd := d\<rparr>;
               f = f\<lparr>fd := (fd f)\<lparr>table_reader := None\<rparr>\<rparr>;
               f = f\<lparr>smallest := sm\<rparr>;
               f = f\<lparr>largest := lg\<rparr>;
               f = f\<lparr>last_op_id := \<lparr>op_term = 1, op_index = seqno lg\<rparr>\<rparr>;
               f = f\<lparr>marked_for_compaction := marked\<rparr>
           in Inr (e\<lparr>new_files := new_files e @ [(level, f)]\<rparr>))"

definition AddFile :: "i32 \<Rightarrow> 'a FileMetaData \<Rightarrow> 'a VersionEdit \<Rightarrow> error + 'a VersionEdit" where
  "AddFile level f e =
     (if \<not> seqno (smallest f) \<le> seqno (largest f) then Inl AssertionFailed
      else Inr (e\<lparr>new_files := new_files e @ [(level, f)]\<rparr>))"

definition AddCleanedFile ::
  "'a FileMetaData \<Rightarrow> i32 \<Rightarrow> 'a FileMetaData \<Rightarrow> 'a VersionEdit \<Rightarrow> error + 'a VersionEdit" where
  "AddCleanedFile f0 level f e =
     (if \<not> seqno (smallest f) \<le> seqno (largest f) then Inl AssertionFailed
      else let nf = f0\<lparr>fd := fd f\<rparr>;
               nf = nf\<lparr>fd := (fd nf)\<lparr>table_reader := None\<rparr>\<rparr>;
               nf = nf\<lparr>smallest := smallest f\<rparr>;
               nf = nf\<lparr>largest := largest f\<rparr>;
               nf = nf\<lparr>last_op_id := last_op_id f\<rparr>;
               nf = nf\<lparr>marked_for_compaction := marked_for_compaction f\<rparr>;
               nf = nf\<lparr>imported := imported f\<rparr>
           in Inr (e\<lparr>new_files := new_files e @ [(level, nf)]\<rparr>))"

definition DeleteFile :: "i32 \<Rightarrow> u64 \<Rightarrow> 'a VersionEdit \<Rightarrow> 'a VersionEdit" where
  "DeleteFile level file e = e\<lparr>deleted_files := finsert (level, file) (deleted_files e)\<rparr>"

definition NumEntries :: "'a VersionEdit \<Rightarrow> nat" where
  "NumEntries e = length (new_files e) + fcard (deleted_files e)"

definition IsColumnFamilyAdd :: "'a VersionEdit \<Rightarrow> bool" where
  "IsColumnFamilyAdd e = (if column_family_name e \<noteq> None then True else False)"

definition IsColumnFamilyManipulation :: "'a VersionEdit \<Rightarrow> bool" where
  "IsColumnFamilyManipulation e = (IsColumnFamilyAdd e \<or> is_column_family_drop e)"

definition AddColumnFamily :: "string \<Rightarrow> 'a VersionEdit \<Rightarrow> error + 'a VersionEdit" where
  "AddColumnFamily name e =
     (if is_column_family_drop e then Inl AssertionFailed
      else if column_family_name e \<noteq> None then Inl AssertionFailed
      else if NumEntries e \<noteq> 0 then Inl AssertionFailed
      else Inr (e\<lparr>column_family_name := Some name\<rparr>))"

definition DropColumnFamily :: "'a VersionEdit \<Rightarrow> error + 'a VersionEdit" where
  "DropColumnFamily e =
     (if is_column_family_drop e then Inl AssertionFailed
      else if column_family_name e \<noteq> None then Inl AssertionFailed
      else if NumEntries e \<noteq> 0 then Inl AssertionFailed
      else Inr (e\<lparr>is_column_family_drop := True\<rparr>))"

definition GetDeletedFiles :: "'a VersionEdit \<Rightarrow> (i32 \<times> u64) fset" where
  "GetDeletedFiles e = deleted_files e"

definition GetNewFiles :: "'a VersionEdit \<Rightarrow> (i32 \<times> 'a FileMetaData) list" where
  "GetNewFiles e = new_files e"

subsection \<open>Sequences of mutator calls\<close>

text \<open>
  A producer builds an edit by calling the mutators one after the other. A call is a value
  of \<open>mutation\<close>; \<open>run\<close> performs the calls in order and stops at the first failed
  assertion, as the aborting process does.
\<close>

datatype 'a mutation =
    M_SetComparatorName string
  | M_SetLogNumber u64
  | M_SetPrevLogNumber u64
  | M_SetNextFile u64
  | M_SetLastSequence u64
  | M_SetFlushedOpId OpId
  | M_SetMaxColumnFamily u32
  | M_SetColumnFamily u32
  | M_AddTestFile i32 FileDescriptor "'a BoundaryValues" "'a BoundaryValues" bool
  | M_AddFile i32 "'a FileMetaData"
  | M_AddCleanedFile i32 "'a FileMetaData"
  | M_DeleteFile i32 u64
  | M_AddColumnFamily string
  | M_DropColumnFamily

fun apply_mutation :: "'a FileMetaData \<Rightarrow> 'a mutation \<Rightarrow> 'a VersionEdit \<Rightarrow> error + 'a VersionEdit" where
  "apply_mutation f0 (M_SetComparatorName n) e = Inr (SetComparatorName n e)"
| "apply_mutation f0 (M_SetLogNumber n) e = Inr (SetLogNumber n e)"
| "apply_mutation f0 (M_SetPrevLogNumber n) e = Inr (SetPrevLogNumber n e)"
| "apply_mutation f0 (M_SetNextFile n) e = Inr (SetNextFile n e)"
| "apply_mutation f0 (M_SetLastSequence n) e = Inr (SetLastSequence n e)"
| "apply_mutation f0 (M_SetFlushedOpId v) e = Inr (SetFlushedOpId v e)"
| "apply_mutation f0 (M_SetMaxColumnFamily c) e = Inr (SetMaxColumnFamily c e)"
| "apply_mutation f0 (M_SetColumnFamily c) e = Inr (SetColumnFamily c e)"
| "apply_mutation f0 (M_AddTestFile level d sm lg marked) e = AddTestFile f0 level d sm lg marked e"
| "apply_mutation f0 (M_AddFile level f) e = AddFile level f e"
| "apply_mutation f0 (M_AddCleanedFile level f) e = AddCleanedFile f0 level f e"
| "apply_mutation f0 (M_DeleteFile level file) e = Inr (DeleteFile level file e)"
| "apply_mutation f0 (M_AddColumnFamily n) e = AddColumnFamily n e"
| "apply_mutation f0 M_DropColumnFamily e = DropColumnFamily e"

fun run :: "'a FileMetaData \<Rightarrow> 'a mutation list \<Rightarrow> 'a VersionEdit \<Rightarrow> error + 'a VersionEdit" where
  "run f0 [] e = Inr e"
| "run f0 (m # ms) e = (case apply_mutation f0 m e of Inl x \<Rightarrow> Inl x | Inr e' \<Rightarrow> run f0 ms e')"

fun is_file_edit :: "'a mutation \<Rightarrow> bool" where
  "is_file_edit (M_AddTestFile level d sm lg marked) = True"
| "is_file_edit (M_AddFile level f) = True"
| "is_file_edit (M_AddCleanedFile level f) = True"
| "is_file_edit (M_DeleteFile level file) = True"
| "is_file_edit _ = False"

fun is_lifecycle :: "'a mutation \<Rightarrow> bool" where
  "is_lifecycle (M_AddColumnFamily n) = True"
| "is_lifecycle M_DropColumnFamily = True"
| "is_lifecycle _ = False"

fun deletions :: "'a mutation list \<Rightarrow> (i32 \<times> u64) list" where
  "deletions [] = []"
| "deletions (M_DeleteFile level file # ms) = (level, file) # deletions ms"
| "deletions (_ # ms) = deletions ms"

subsection \<open>Encoded form\<close>

text \<open>
  Modelled from the spec: \<^verbatim>\<open>AppendEncodedTo\<close>, \<^verbatim>\<open>EncodeTo\<close> and \<^verbatim>\<open>DecodeFrom\<close> are declared
  in the header and defined in a file that is not at hand, as is the message class
  \<^verbatim>\<open>VersionEditPB\<close>. The specification (external interfaces) describes the persisted form
  as a structured message per edit: as independently optional fields the comparator name,
  log number, previous log number, next file number, max column family and last sequence;
  the always-present flushed op id; an ordered list of file additions, each with level,
  file identity, total and base size, smallest and largest boundary (key bytes, auxiliary
  value, sequence number), last op id, imported flag, compensated size, content
  statistics and, for the fidelity the mutation contract asks for, the
  marked-for-compaction flag; a list of file deletions; and the column-family fields.
  A file addition may lack a boundary (a required sub-field), so both boundaries are
  optional in the message. The identity travels as file number and path id, the two
  arguments of the descriptor's constructor, whose ranges the decoder validates before
  construction. The auxiliary value is held in a wire form \<open>'w\<close>.
\<close>

record 'w BoundaryValuesPB =
  pb_key :: string
  pb_aux :: 'w
  pb_seqno :: u64

record 'w NewFilePB =
  pb_level :: i32
  pb_number :: u64
  pb_path_id :: u32
  pb_total_file_size :: u64
  pb_base_file_size :: u64
  pb_smallest :: "'w BoundaryValuesPB option"
  pb_largest :: "'w BoundaryValuesPB option"
  pb_last_op_id :: OpId
  pb_imported :: bool
  pb_compensated_file_size :: u64
  pb_num_entries :: u64
  pb_num_deletions :: u64
  pb_raw_key_size :: u64
  pb_raw_value_size :: u64
  pb_init_stats_from_file :: bool
  pb_marked_for_compaction :: bool

record 'w VersionEditPB =
  pb_comparator :: "string option"
  pb_log_number :: "u64 option"
  pb_prev_log_number :: "u64 option"
  pb_next_file_number :: "u64 option"
  pb_max_column_family :: "u32 option"
  pb_last_sequence :: "u64 option"
  pb_flushed_op_id :: OpId
  pb_new_files :: "'w NewFilePB list"
  pb_deleted_files :: "(i32 \<times> u64) list"
  pb_column_family :: u32
  pb_column_family_name :: "string option"
  pb_is_column_family_drop :: bool

text \<open>
  Modelled from the spec: encoding. \<open>aux_encode\<close> is the wire form of an auxiliary value.
  \<open>EncodeTo\<close> fails (the C++ function returns \<^verbatim>\<open>false\<close>) only on a conflicting combination
  of the lifecycle fields. The deletion set is written as the list of its elements.
  The byte-level form of a message is the business of the wire library, which is the
  parameter \<open>serialize\<close> of \<open>AppendEncodedTo\<close>; the result is the success flag and the
  buffer after appending.
\<close>

definition EncodeBoundaryValues :: "('a \<Rightarrow> 'w) \<Rightarrow> 'a BoundaryValues \<Rightarrow> 'w BoundaryValuesPB" where
  "EncodeBoundaryValues aux_encode b =
     \<lparr>pb_key = key b, pb_aux = aux_encode (aux b), pb_seqno = seqno b\<rparr>"

definition EncodeNewFile :: "('a \<Rightarrow> 'w) \<Rightarrow> i32 \<times> 'a FileMetaData \<Rightarrow> 'w NewFilePB" where
  "EncodeNewFile aux_encode p =
     (let f = snd p in
      \<lparr>pb_level = fst p,
       pb_number = GetNumber (fd f),
       pb_path_id = GetPathId (fd f),
       pb_total_file_size = GetTotalFileSize (fd f),
       pb_base_file_size = GetBaseFileSize (fd f),
       pb_smallest = Some (EncodeBoundaryValues aux_encode (smallest f)),
       pb_largest = Some (EncodeBoundaryValues aux_encode (largest f)),
       pb_last_op_id = last_op_id f,
       pb_imported = imported f,
       pb_compensated_file_size = compensated_file_size f,
       pb_num_entries = num_entries f,
       pb_num_deletions = num_deletions f,
       pb_raw_key_size = raw_key_size f,
       pb_raw_value_size = raw_value_size f,
       pb_init_stats_from_file = init_stats_from_file f,
       pb_marked_for_compaction = marked_for_compaction f\<rparr>)"

definition EncodeTo :: "('a \<Rightarrow> 'w) \<Rightarrow> 'a VersionEdit \<Rightarrow> 'w VersionEditPB option" where
  "EncodeTo aux_encode e =
     (if column_family_name e \<noteq> None \<and> is_column_family_drop e then None
      else Some
        \<lparr>pb_comparator = comparator e,
         pb_log_number = log_number e,
         pb_prev_log_number = prev_log_number e,
         pb_next_file_number = next_file_number e,
         pb_max_column_family = max_column_family e,
         pb_last_sequence = last_sequence e,
         pb_flushed_op_id = flushed_op_id e,
         pb_new_files = map (EncodeNewFile aux_encode) (new_files e),
         pb_deleted_files = sorted_list_of_fset (deleted_files e),
         pb_column_family = column_family e,
         pb_column_family_name = column_family_name e,
         pb_is_column_family_drop = is_column_family_drop e\<rparr>)"

definition AppendEncodedTo ::
  "('a \<Rightarrow> 'w) \<Rightarrow> ('w VersionEditPB \<Rightarrow> string) \<Rightarrow> 'a VersionEdit \<Rightarrow> string \<Rightarrow> bool \<times> string" where
  "AppendEncodedTo aux_encode serialize e dst =
     (case EncodeTo aux_encode e of
        None \<Rightarrow> (False, dst)
      | Some pb \<Rightarrow> (True, dst @ serialize pb))"

text \<open>
  Modelled from the spec: decoding. \<open>parse\<close> is the wire library's parser and
  \<open>extractor\<close> the pluggable decoding of the auxiliary value from the key bytes and the
  wire form; \<open>f0\<close> is a default-constructed \<^verbatim>\<open>FileMetaData\<close>. \<open>DecodeFrom\<close> fails with
  a corruption error when the bytes do not parse, when the lifecycle fields are not
  mutually exclusive (with each other, or with file additions and deletions), when a file
  entry lacks a boundary, when its file number or path id exceeds the bit-width contract,
  when the extractor rejects an auxiliary value, or when the smallest boundary has a
  greater sequence number than the largest. The transient members \<^verbatim>\<open>refs\<close>,
  \<^verbatim>\<open>being_compacted\<close> and \<^verbatim>\<open>table_reader_handle\<close> are not in the message and keep their
  default; the table reader of a constructed descriptor is null. The member
  \<^verbatim>\<open>max_level_\<close>, which neither the header's inline code nor the specification reads or
  writes, stays as it is in the receiver \<open>e\<close>.
\<close>

definition DecodeBoundaryValues ::
  "(string \<Rightarrow> 'w \<Rightarrow> 'a option) \<Rightarrow> 'w BoundaryValuesPB \<Rightarrow> error + 'a BoundaryValues" where
  "DecodeBoundaryValues extractor b =
     (case extractor (pb_key b) (pb_aux b) of
        None \<Rightarrow> Inl Corruption
      | Some a \<Rightarrow> Inr \<lparr>seqno = pb_seqno b, aux = a, key = pb_key b\<rparr>)"

definition DecodeNewFile ::
  "(string \<Rightarrow> 'w \<Rightarrow> 'a option) \<Rightarrow> 'a FileMetaData \<Rightarrow> 'w NewFilePB
     \<Rightarrow> error + (i32 \<times> 'a FileMetaData)" where
  "DecodeNewFile extractor f0 nf =
     (case (pb_smallest nf, pb_largest nf) of
        (Some s, Some l) \<Rightarrow>
          if \<not> (pb_number nf \<le> kFileNumberMask \<and> pb_path_id nf \<le> 3) then Inl Corruption
          else (case DecodeBoundaryValues extractor s of
              Inl x \<Rightarrow> Inl x
            | Inr sm \<Rightarrow>
               (case DecodeBoundaryValues extractor l of
                  Inl x \<Rightarrow> Inl x
                | Inr lg \<Rightarrow>
                   if \<not> seqno sm \<le> seqno lg then Inl Corruption
                   else Inr (pb_level nf,
                     f0\<lparr>fd := FileDescriptor_init (pb_number nf) (pb_path_id nf)
                                 (pb_total_file_size nf) (pb_base_file_size nf),
                        smallest := sm,
                        largest := lg,
                        last_op_id := pb_last_op_id nf,
                        imported := pb_imported nf,
                        compensated_file_size := pb_compensated_file_size nf,
                        num_entries := pb_num_entries nf,
                        num_deletions := pb_num_deletions nf,
                        raw_key_size := pb_raw_key_size nf,
                        raw_value_size := pb_raw_value_size nf,
                        init_stats_from_file := pb_init_stats_from_file nf,
                        marked_for_compaction := pb_marked_for_compaction nf\<rparr>)))
      | _ \<Rightarrow> Inl Corruption)"

fun DecodeNewFiles ::
  "(string \<Rightarrow> 'w \<Rightarrow> 'a option) \<Rightarrow> 'a FileMetaData \<Rightarrow> 'w NewFilePB list
     \<Rightarrow> error + (i32 \<times> 'a FileMetaData) list" where
  "DecodeNewFiles extractor f0 [] = Inr []"
| "DecodeNewFiles extractor f0 (nf # nfs) =
     (case DecodeNewFile extractor f0 nf of
        Inl x \<Rightarrow> Inl x
      | Inr p \<Rightarrow>
         (case DecodeNewFiles extractor f0 nfs of
            Inl x \<Rightarrow> Inl x
          | Inr ps \<Rightarrow> Inr (p # ps)))"

definition DecodeFrom ::
  "(string \<Rightarrow> 'w \<Rightarrow> 'a option) \<Rightarrow> 'a FileMetaData \<Rightarrow> (string \<Rightarrow> 'w VersionEditPB option)
     \<Rightarrow> string \<Rightarrow> 'a VersionEdit \<Rightarrow> error + 'a VersionEdit" where
  "DecodeFrom extractor f0 parse src e =
     (case parse src of
        None \<Rightarrow> Inl Corruption
      | Some pb \<Rightarrow>
          if pb_column_family_name pb \<noteq> None \<and> pb_is_column_family_drop pb then Inl Corruption
          else if (pb_column_family_name pb \<noteq> None \<or> pb_is_column_family_drop pb)
                  \<and> (pb_new_files pb \<noteq> [] \<or> pb_deleted_files pb \<noteq> []) then Inl Corruption
          else (case DecodeNewFiles extractor f0 (pb_new_files pb) of
              Inl x \<Rightarrow> Inl x
            | Inr files \<Rightarrow>
               Inr \<lparr>max_level = max_level e,
                    comparator = pb_comparator pb,
                    log_number = pb_log_number pb,
                    prev_log_number = pb_prev_log_number pb,
                    next_file_number = pb_next_file_number pb,
                    max_column_family = pb_max_column_family pb,
                    last_sequence = pb_last_sequence pb,
                    flushed_op_id = pb_flushed_op_id pb,
                    deleted_files = fset_of_list (pb_deleted_files pb),
                    new_files = files,
                    column_family = pb_column_family pb,
                    is_column_family_drop = pb_is_column_family_drop pb,
                    column_family_name = pb_column_family_name pb\<rparr>))"

text \<open>
  Modelled from the spec: the invariant set of a well-formed record (data model): every
  new file has its boundary sequence numbers in order; at most one of the two lifecycle
  fields is set; and if one is set, there are no file additions and no deletions. (That
  the deletion set holds no pair twice is a property of the set type.)
\<close>

definition well_formed :: "'a VersionEdit \<Rightarrow> bool" where
  "well_formed e \<longleftrightarrow>
     (\<forall>p \<in> set (new_files e). seqno (smallest (snd p)) \<le> seqno (largest (snd p))) \<and>
     \<not> (IsColumnFamilyAdd e \<and> is_column_family_drop e) \<and>
     (IsColumnFamilyManipulation e \<longrightarrow> new_files e = [] \<and> deleted_files e = {||})"

text \<open>
  What is left of a file's metadata after a round trip: the transient members are those
  of a default-constructed value \<open>f0\<close>, and the table reader is null.
\<close>

definition with_transient_defaults :: "'a FileMetaData \<Rightarrow> 'a FileMetaData \<Rightarrow> 'a FileMetaData" where
  "with_transient_defaults f0 f =
     f\<lparr>refs := refs f0,
       fd := (fd f)\<lparr>table_reader := None\<rparr>,
       being_compacted := being_compacted f0,
       table_reader_handle := table_reader_handle f0\<rparr>"

subsection \<open>A wire format\<close>

text \<open>
  The wire library is outside the repository, and the specification fixes no byte layout.
  To have an instance of the parameters \<open>serialize\<close> and \<open>parse\<close>, this is one
  self-delimiting layout: integers as base-128 varints, strings and lists with a length
  prefix, an optional value after a presence byte, the fields of a message in a fixed
  order. A parser returns the value and the rest of the input, or \<open>None\<close>.
\<close>

fun put_varint :: "nat \<Rightarrow> string" where
  "put_varint n =
     (if n < 128 then [char_of n] else char_of (128 + n mod 128) # put_varint (n div 128))"

declare put_varint.simps [simp del]

fun get_varint :: "string \<Rightarrow> (nat \<times> string) option" where
  "get_varint [] = None"
| "get_varint (c # cs) =
     (if of_char c < (128 :: nat) then Some (of_char c, cs)
      else (case get_varint cs of
              None \<Rightarrow> None
            | Some (n, r) \<Rightarrow> Some (of_char c - 128 + 128 * n, r)))"

definition put_word :: "'a::len word \<Rightarrow> string" where
  "put_word w = put_varint (unat w)"

definition get_word :: "string \<Rightarrow> ('a::len word \<times> string) option" where
  "get_word s =
     (case get_varint s of
        None \<Rightarrow> None
      | Some (n, r) \<Rightarrow> if n < 2 ^ LENGTH('a) then Some (word_of_nat n, r) else None)"

definition put_bool :: "bool \<Rightarrow> string" where
  "put_bool b = [if b then CHR 0x01 else CHR 0x00]"

fun get_bool :: "string \<Rightarrow> (bool \<times> string) option" where
  "get_bool [] = None"
| "get_bool (c # cs) =
     (if c = CHR 0x00 then Some (False, cs) else if c = CHR 0x01 then Some (True, cs) else None)"

definition put_string :: "string \<Rightarrow> string" where
  "put_string s = put_varint (length s) @ s"

definition get_string :: "string \<Rightarrow> (string \<times> string) option" where
  "get_string s =
     (case get_varint s of
        None \<Rightarrow> None
      | Some (n, r) \<Rightarrow> if n \<le> length r then Some (take n r, drop n r) else None)"

fun put_option :: "('a \<Rightarrow> string) \<Rightarrow> 'a option \<Rightarrow> string" where
  "put_option p None = [CHR 0x00]"
| "put_option p (Some x) = CHR 0x01 # p x"

fun get_option :: "(string \<Rightarrow> ('a \<times> string) option) \<Rightarrow> string \<Rightarrow> ('a option \<times> string) option" where
  "get_option g [] = None"
| "get_option g (c # cs) =
     (if c = CHR 0x00 then Some (None, cs)
      else if c = CHR 0x01 then
        (case g cs of None \<Rightarrow> None | Some (x, r) \<Rightarrow> Some (Some x, r))
      else None)"

definition put_pair :: "('a \<Rightarrow> string) \<Rightarrow> ('b \<Rightarrow> string) \<Rightarrow> 'a \<times> 'b \<Rightarrow> string" where
  "put_pair pa pb x = pa (fst x) @ pb (snd x)"

definition get_pair ::
  "(string \<Rightarrow> ('a \<times> string) option) \<Rightarrow> (string \<Rightarrow> ('b \<times> string) option)
     \<Rightarrow> string \<Rightarrow> (('a \<times> 'b) \<times> string) option" where
  "get_pair ga gb s =
     (case ga s of
        None \<Rightarrow> None
      | Some (a, r) \<Rightarrow> (case gb r of None \<Rightarrow> None | Some (b, r') \<Rightarrow> Some ((a, b), r')))"

fun get_items :: "(string \<Rightarrow> ('a \<times> string) option) \<Rightarrow> nat \<Rightarrow> string \<Rightarrow> ('a list \<times> string) option" where
  "get_items g 0 s = Some ([], s)"
| "get_items g (Suc n) s =
     (case g s of
        None \<Rightarrow> None
      | Some (x, r) \<Rightarrow>
         (case get_items g n r of None \<Rightarrow> None | Some (xs, r') \<Rightarrow> Some (x # xs, r')))"

definition put_list :: "('a \<Rightarrow> string) \<Rightarrow> 'a list \<Rightarrow> string" where
  "put_list p xs = put_varint (length xs) @ concat (map p xs)"

definition get_list :: "(string \<Rightarrow> ('a \<times> string) option) \<Rightarrow> string \<Rightarrow> ('a list \<times> string) option" where
  "get_list g s = (case get_varint s of None \<Rightarrow> None | Some (n, r) \<Rightarrow> get_items g n r)"

definition get_map ::
  "('a \<Rightarrow> 'b) \<Rightarrow> (string \<Rightarrow> ('a \<times> string) option) \<Rightarrow> string \<Rightarrow> ('b \<times> string) option" where
  "get_map f g s = (case g s of None \<Rightarrow> None | Some (a, r) \<Rightarrow> Some (f a, r))"

definition put_OpId :: "OpId \<Rightarrow> string" where
  "put_OpId x = put_pair put_word put_word (op_term x, op_index x)"

definition get_OpId :: "string \<Rightarrow> (OpId \<times> string) option" where
  "get_OpId = get_map (\<lambda>(t, i). \<lparr>op_term = t, op_index = i\<rparr>) (get_pair get_word get_word)"

definition put_BoundaryValuesPB :: "string BoundaryValuesPB \<Rightarrow> string" where
  "put_BoundaryValuesPB b =
     put_pair put_string (put_pair put_string put_word) (pb_key b, pb_aux b, pb_seqno b)"

definition get_BoundaryValuesPB :: "string \<Rightarrow> (string BoundaryValuesPB \<times> string) option" where
  "get_BoundaryValuesPB =
     get_map (\<lambda>(k, a, s). \<lparr>pb_key = k, pb_aux = a, pb_seqno = s\<rparr>)
       (get_pair get_string (get_pair get_string get_word))"

definition put_NewFilePB :: "string NewFilePB \<Rightarrow> string" where
  "put_NewFilePB f =
     put_pair put_word (put_pair put_word (put_pair put_word (put_pair put_word (put_pair put_word
       (put_pair (put_option put_BoundaryValuesPB) (put_pair (put_option put_BoundaryValuesPB)
       (put_pair put_OpId (put_pair put_bool (put_pair put_word (put_pair put_word
       (put_pair put_word (put_pair put_word (put_pair put_word (put_pair put_bool
        put_bool))))))))))))))
       (pb_level f, pb_number f, pb_path_id f, pb_total_file_size f, pb_base_file_size f,
        pb_smallest f, pb_largest f, pb_last_op_id f, pb_imported f,
        pb_compensated_file_size f, pb_num_entries f, pb_num_deletions f, pb_raw_key_size f,
        pb_raw_value_size f, pb_init_stats_from_file f, pb_marked_for_compaction f)"

definition get_NewFilePB :: "string \<Rightarrow> (string NewFilePB \<times> string) option" where
  "get_NewFilePB =
     get_map (\<lambda>(lv, nu, pa, ts, bs, sm, lg, op, im, cs, ne, nd, rk, rv, st, mk).
        \<lparr>pb_level = lv, pb_number = nu, pb_path_id = pa, pb_total_file_size = ts,
         pb_base_file_size = bs, pb_smallest = sm, pb_largest = lg, pb_last_op_id = op,
         pb_imported = im, pb_compensated_file_size = cs, pb_num_entries = ne,
         pb_num_deletions = nd, pb_raw_key_size = rk, pb_raw_value_size = rv,
         pb_init_stats_from_file = st, pb_marked_for_compaction = mk\<rparr>)
     (get_pair get_word (get_pair get_word (get_pair get_word (get_pair get_word (get_pair get_word
       (get_pair (get_option get_BoundaryValuesPB) (get_pair (get_option get_BoundaryValuesPB)
       (get_pair get_OpId (get_pair get_bool (get_pair get_word (get_pair get_word
       (get_pair get_word (get_pair get_word (get_pair get_word (get_pair get_bool
        get_bool)))))))))))))))"

definition put_VersionEditPB :: "string VersionEditPB \<Rightarrow> string" where
  "put_VersionEditPB m =
     put_pair (put_option put_string) (put_pair (put_option put_word) (put_pair (put_option put_word)
       (put_pair (put_option put_word) (put_pair (put_option put_word) (put_pair (put_option put_word)
       (put_pair put_OpId (put_pair (put_list put_NewFilePB)
       (put_pair (put_list (put_pair put_word put_word))
       (put_pair put_word (put_pair (put_option put_string) put_bool))))))))))
       (pb_comparator m, pb_log_number m, pb_prev_log_number m, pb_next_file_number m,
        pb_max_column_family m, pb_last_sequence m, pb_flushed_op_id m, pb_new_files m,
        pb_deleted_files m, pb_column_family m, pb_column_family_name m,
        pb_is_column_family_drop m)"

definition get_VersionEditPB :: "string \<Rightarrow> (string VersionEditPB \<times> string) option" where
  "get_VersionEditPB =
     get_map (\<lambda>(co, lo, pl, nf, mc, ls, fo, fs, ds, cf, cn, dr).
        \<lparr>pb_comparator = co, pb_log_number = lo, pb_prev_log_number = pl,
         pb_next_file_number = nf, pb_max_column_family = mc, pb_last_sequence = ls,
         pb_flushed_op_id = fo, pb_new_files = fs, pb_deleted_files = ds, pb_column_family = cf,
         pb_column_family_name = cn, pb_is_column_family_drop = dr\<rparr>)
     (get_pair (get_option get_string) (get_pair (get_option get_word) (get_pair (get_option get_word)
       (get_pair (get_option get_word) (get_pair (get_option get_word) (get_pair (get_option get_word)
       (get_pair get_OpId (get_pair (get_list get_NewFilePB)
       (get_pair (get_list (get_pair get_word get_word))
       (get_pair get_word (get_pair (get_option get_string) get_bool)))))))))))"

definition wire_serialize :: "string VersionEditPB \<Rightarrow> string" where
  "wire_serialize m = put_VersionEditPB m"

definition wire_parse :: "string \<Rightarrow> string VersionEditPB option" where
  "wire_parse s =
     (case get_VersionEditPB s of
        None \<Rightarrow> None
      | Some (m, r) \<Rightarrow> if r = [] then Some m else None)"

text \<open>
  A pair of a printer and a parser is a codec when the parser reads back what the printer
  wrote, leaving the rest of the input, and rejects every proper prefix of it.
\<close>

definition codec :: "('a \<Rightarrow> string) \<Rightarrow> (string \<Rightarrow> ('a \<times> string) option) \<Rightarrow> bool" where
  "codec p g \<longleftrightarrow>
     (\<forall>x r. g (p x @ r) = Some (x, r)) \<and> (\<forall>x s. strict_prefix s (p x) \<longrightarrow> g s = None)"

subsection \<open>Concrete values\<close>

text \<open>
  An edit without entries, a file with live-process state (an open table reader, a
  reference, statistics) whose boundary sequence numbers are the arguments, and a
  metadata value with every counter zero standing for a default-constructed one.
\<close>

definition example_edit :: "unit VersionEdit" where
  "example_edit =
     \<lparr>max_level = 0, comparator = None, log_number = None, prev_log_number = None,
      next_file_number = None, max_column_family = None, last_sequence = None,
      flushed_op_id = \<lparr>op_term = 0, op_index = 0\<rparr>, deleted_files = {||}, new_files = [],
      column_family = 0, is_column_family_drop = False, column_family_name = None\<rparr>"

definition example_file :: "u64 \<Rightarrow> u64 \<Rightarrow> unit FileMetaData" where
  "example_file s l =
     \<lparr>refs = 1, fd = (FileDescriptor_init 7 0 4096 1024)\<lparr>table_reader := Some 1\<rparr>,
      being_compacted = True,
      smallest = \<lparr>seqno = s, aux = (), key = ''a''\<rparr>,
      largest = \<lparr>seqno = l, aux = (), key = ''z''\<rparr>,
      last_op_id = \<lparr>op_term = 2, op_index = 40\<rparr>, imported = True,
      table_reader_handle = Some 2, compensated_file_size = 5000, num_entries = 10,
      num_deletions = 3, raw_key_size = 80, raw_value_size = 900,
      init_stats_from_file = True, marked_for_compaction = True\<rparr>"

definition example_default :: "unit FileMetaData" where
  "example_default =
     \<lparr>refs = 0, fd = FileDescriptor_init 0 0 0 0, being_compacted = False,
      smallest = \<lparr>seqno = 0, aux = (), key = []\<rparr>,
      largest = \<lparr>seqno = 0, aux = (), key = []\<rparr>,
      last_op_id = \<lparr>op_term = 0, op_index = 0\<rparr>, imported = False,
      table_reader_handle = None, compensated_file_size = 0, num_entries = 0,
      num_deletions = 0, raw_key_size = 0, raw_value_size = 0,
      init_stats_from_file = False, marked_for_compaction = False\<rparr>"

text \<open>
  The codec of a trivial auxiliary value, and an edit with optional fields, a file and a
  deletion.
\<close>

definition example_aux_encode :: "unit \<Rightarrow> string" where
  "example_aux_encode a = []"

definition example_aux_decode :: "string \<Rightarrow> string \<Rightarrow> unit option" where
  "example_aux_decode k w = (if w = [] then Some () else None)"

definition example_record :: "unit VersionEdit" where
  "example_record =
     example_edit\<lparr>comparator := Some ''cmp'', log_number := Some 4, next_file_number := Some 300,
       last_sequence := Some 9, flushed_op_id := \<lparr>op_term = 2, op_index = 40\<rparr>,
       deleted_files := {|(3, 100)|}, new_files := [(2, example_file 5 9)]\<rparr>"

section \<open>Properties\<close>

subsection \<open>Packed identity\<close>

lemma kFileNumberMask_mask: "kFileNumberMask = mask 62"
  by (simp add: kFileNumberMask_def mask_eq_exp_minus_1)

lemma kFileNumberMask_succ: "kFileNumberMask + 1 = 2 ^ 62"
  by (simp add: kFileNumberMask_def)

lemma unat_ucast_u32_u64: "unat (ucast (p :: u32) :: u64) = unat p"
proof -
  have "unat p < 2 ^ 32"
    using unsigned_less [of p, where ?'a = nat] by simp
  then have "unat p < 2 ^ 64"
    by simp
  then show ?thesis
    by (simp add: unsigned_ucast_eq take_bit_nat_eq_self)
qed

lemma unat_pack:
  fixes number path_id :: u64
  assumes n: "number \<le> kFileNumberMask" and p: "path_id \<le> 3"
  shows "unat (PackFileNumberAndPathId number path_id) = unat path_id * 2 ^ 62 + unat number"
proof -
  have n': "unat number < 2 ^ 62"
    using n by (simp add: word_le_nat_alt kFileNumberMask_def)
  have p': "unat path_id \<le> 3"
    using p by (simp add: word_le_nat_alt)
  have "unat path_id * 2 ^ 62 + unat number < 2 ^ 64"
    using n' p' by simp
  then show ?thesis
    unfolding PackFileNumberAndPathId_def kFileNumberMask_succ
    by (simp add: unat_word_ariths)
qed

lemma GetNumber_pack:
  fixes number :: u64 and path_id :: u32
  assumes n: "number \<le> kFileNumberMask" and p: "path_id \<le> 3"
  shows "GetNumber (FileDescriptor_init number path_id t b) = number"
proof -
  have p64: "(ucast path_id :: u64) \<le> 3"
    using p by (simp add: word_le_nat_alt unat_ucast_u32_u64)
  have n': "unat number < 2 ^ 62"
    using n by (simp add: word_le_nat_alt kFileNumberMask_def)
  have "GetNumber (FileDescriptor_init number path_id t b)
        = take_bit 62 (PackFileNumberAndPathId number (ucast path_id))"
    by (simp add: GetNumber_def FileDescriptor_init_def kFileNumberMask_mask take_bit_eq_mask)
  then have "unat (GetNumber (FileDescriptor_init number path_id t b))
        = (unat (ucast path_id :: u64) * 2 ^ 62 + unat number) mod 2 ^ 62"
    by (simp add: take_bit_eq_mod unat_mod unat_pack [OF n p64])
  also have "\<dots> = unat number"
    using n' by simp
  finally show ?thesis
    by (simp only: word_unat_eq_iff)
qed

lemma GetPathId_pack:
  fixes number :: u64 and path_id :: u32
  assumes n: "number \<le> kFileNumberMask" and p: "path_id \<le> 3"
  shows "GetPathId (FileDescriptor_init number path_id t b) = path_id"
proof -
  have p64: "(ucast path_id :: u64) \<le> 3"
    using p by (simp add: word_le_nat_alt unat_ucast_u32_u64)
  have n': "unat number < 2 ^ 62"
    using n by (simp add: word_le_nat_alt kFileNumberMask_def)
  have "unat (packed_number_and_path_id (FileDescriptor_init number path_id t b) div (kFileNumberMask + 1))
        = unat (ucast path_id :: u64)"
    using n' by (simp add: FileDescriptor_init_def unat_div unat_pack [OF n p64]
        kFileNumberMask_succ)
  then have "packed_number_and_path_id (FileDescriptor_init number path_id t b) div (kFileNumberMask + 1)
        = ucast path_id"
    by (simp only: word_unat_eq_iff)
  then show ?thesis
    by (simp add: GetPathId_def ucast_up_ucast_id is_up)
qed

subsection \<open>Mutator calls\<close>



lemma run_append:
  "run f0 (ms @ ns) e = (case run f0 ms e of Inl x \<Rightarrow> Inl x | Inr e' \<Rightarrow> run f0 ns e')"
  by (induction ms arbitrary: e) (auto split: sum.splits)

lemma apply_mutation_error: "apply_mutation f0 m e = Inl x \<Longrightarrow> x = AssertionFailed"
  by (cases m) (auto simp: AddTestFile_def AddFile_def AddCleanedFile_def AddColumnFamily_def
      DropColumnFamily_def Let_def split: if_splits)

lemma run_error: "run f0 ms e = Inl x \<Longrightarrow> x = AssertionFailed"
  by (induction ms arbitrary: e) (auto split: sum.splits dest: apply_mutation_error)

lemma fcard_finsert_ge: "fcard s \<le> fcard (finsert x s)"
  by (simp add: fcard_finsert_if)

lemma NumEntries_apply_mono:
  "apply_mutation f0 m e = Inr e' \<Longrightarrow> NumEntries e \<le> NumEntries e'"
  by (cases m) (auto simp: NumEntries_def AddTestFile_def AddFile_def AddCleanedFile_def
      AddColumnFamily_def DropColumnFamily_def DeleteFile_def SetComparatorName_def
      SetLogNumber_def SetPrevLogNumber_def SetNextFile_def SetLastSequence_def
      SetFlushedOpId_def SetMaxColumnFamily_def SetColumnFamily_def Let_def fcard_finsert_if
      split: if_splits)

lemma NumEntries_run_mono:
  "run f0 ms e = Inr e' \<Longrightarrow> NumEntries e \<le> NumEntries e'"
proof (induction ms arbitrary: e)
  case Nil
  then show ?case by simp
next
  case (Cons m ms)
  then show ?case
    by (auto split: sum.splits dest!: NumEntries_apply_mono Cons.IH)
qed

lemma fcard_finsert_pos: "0 < fcard (finsert x s)"
  by (rule gr0I) simp

lemma NumEntries_file_edit:
  "is_file_edit m \<Longrightarrow> apply_mutation f0 m e = Inr e' \<Longrightarrow> 0 < NumEntries e'"
  by (cases m) (auto simp: NumEntries_def AddTestFile_def AddFile_def AddCleanedFile_def
      DeleteFile_def Let_def fcard_finsert_pos split: if_splits)

lemma lifecycle_asserts:
  "is_lifecycle c \<Longrightarrow> 0 < NumEntries e \<Longrightarrow> apply_mutation f0 c e = Inl AssertionFailed"
  by (cases c) (auto simp: AddColumnFamily_def DropColumnFamily_def)

lemma run_file_edit_then_lifecycle:
  assumes "is_file_edit m" and "is_lifecycle c"
  shows "run f0 (ms1 @ m # ms2 @ [c]) e = Inl AssertionFailed"
proof (cases "run f0 (ms1 @ m # ms2) e")
  case (Inl x)
  then have "run f0 ((ms1 @ m # ms2) @ [c]) e = Inl x"
    by (simp only: run_append sum.case)
  moreover have "x = AssertionFailed"
    using Inl by (rule run_error)
  ultimately show ?thesis by simp
next
  case (Inr e3)
  then obtain e1 e2 where e1: "run f0 ms1 e = Inr e1"
    and e2: "apply_mutation f0 m e1 = Inr e2" and e3: "run f0 ms2 e2 = Inr e3"
    by (auto simp: run_append split: sum.splits)
  have "0 < NumEntries e2"
    using assms(1) e2 by (rule NumEntries_file_edit)
  with NumEntries_run_mono [OF e3] have "0 < NumEntries e3"
    by simp
  with assms(2) have "apply_mutation f0 c e3 = Inl AssertionFailed"
    by (rule lifecycle_asserts)
  moreover have "run f0 ((ms1 @ m # ms2) @ [c]) e = run f0 [c] e3"
    using Inr by (simp only: run_append sum.case)
  ultimately show ?thesis by simp
qed

lemma deleted_files_apply:
  "apply_mutation f0 m e = Inr e' \<Longrightarrow>
   deleted_files e' = deleted_files e |\<union>| fset_of_list (deletions [m])"
  by (cases m) (auto simp: AddTestFile_def AddFile_def AddCleanedFile_def
      AddColumnFamily_def DropColumnFamily_def DeleteFile_def SetComparatorName_def
      SetLogNumber_def SetPrevLogNumber_def SetNextFile_def SetLastSequence_def
      SetFlushedOpId_def SetMaxColumnFamily_def SetColumnFamily_def Let_def
      split: if_splits)

lemma deletions_Cons: "deletions (m # ms) = deletions [m] @ deletions ms"
  by (cases m) simp_all

lemma deleted_files_run:
  "run f0 ms e = Inr e' \<Longrightarrow> deleted_files e' = deleted_files e |\<union>| fset_of_list (deletions ms)"
proof (induction ms arbitrary: e)
  case Nil
  then show ?case by simp
next
  case (Cons m ms)
  from Cons.prems obtain e1 where e1: "apply_mutation f0 m e = Inr e1"
    and r: "run f0 ms e1 = Inr e'"
    by (auto split: sum.splits)
  have "deleted_files e' = deleted_files e1 |\<union>| fset_of_list (deletions ms)"
    using r by (rule Cons.IH)
  also have "deleted_files e1 = deleted_files e |\<union>| fset_of_list (deletions [m])"
    using e1 by (rule deleted_files_apply)
  finally show ?case
    by (subst deletions_Cons) (simp add: funion_assoc)
qed

subsection \<open>Repacking an identity\<close>

lemma pack_unpack_id:
  "PackFileNumberAndPathId (w AND kFileNumberMask) (ucast (ucast (w div (kFileNumberMask + 1)) :: u32)) = w"
proof -
  have d: "unat (w div 2 ^ 62) \<le> 3"
  proof -
    have "unat w < 2 ^ 64"
      using unsigned_less [of w, where ?'a = nat] by simp
    then have "unat w div 2 ^ 62 < 4"
      by (simp add: less_mult_imp_div_less)
    then show ?thesis
      by (simp add: unat_div)
  qed
  have u: "(ucast (ucast (w div 2 ^ 62) :: u32) :: u64) = w div 2 ^ 62"
  proof -
    have "unat (ucast (ucast (w div 2 ^ 62) :: u32) :: u64) = unat (w div 2 ^ 62)"
      using d by (simp add: unsigned_ucast_eq unsigned_take_bit_eq take_bit_nat_eq_self)
    then show ?thesis
      by (simp only: word_unat_eq_iff)
  qed
  have a: "w AND kFileNumberMask = w mod 2 ^ 62"
    unfolding kFileNumberMask_mask take_bit_eq_mask [symmetric] by (rule take_bit_eq_mod)
  show ?thesis
    unfolding PackFileNumberAndPathId_def kFileNumberMask_succ a u
    by (rule div_mult_mod_eq)
qed

lemma FileDescriptor_reinit:
  "FileDescriptor_init (GetNumber d) (GetPathId d) (GetTotalFileSize d) (GetBaseFileSize d)
     = d\<lparr>table_reader := None\<rparr>"
  by (simp add: FileDescriptor_init_def GetNumber_def GetPathId_def GetTotalFileSize_def
      GetBaseFileSize_def pack_unpack_id)

lemma GetNumber_le: "GetNumber d \<le> kFileNumberMask"
  by (simp add: GetNumber_def word_and_le1)

lemma GetPathId_le: "GetPathId d \<le> 3"
proof -
  have "unat (packed_number_and_path_id d) < 2 ^ 64"
    using unsigned_less [of "packed_number_and_path_id d", where ?'a = nat] by simp
  then have "unat (packed_number_and_path_id d) div 2 ^ 62 < 4"
    by (simp add: less_mult_imp_div_less)
  then have "unat (packed_number_and_path_id d div 2 ^ 62) \<le> 3"
    by (simp add: unat_div)
  then have "unat (ucast (packed_number_and_path_id d div 2 ^ 62) :: u32) \<le> 3"
    by (simp add: unsigned_ucast_eq take_bit_nat_eq_self)
  then show ?thesis
    by (simp add: GetPathId_def kFileNumberMask_succ word_le_nat_alt)
qed

subsection \<open>Encoding then decoding\<close>

lemma BoundaryValues_roundtrip:
  "extractor (key b) (aux_encode (aux b)) = Some (aux b) \<Longrightarrow>
   DecodeBoundaryValues extractor (EncodeBoundaryValues aux_encode b) = Inr b"
  by (simp add: DecodeBoundaryValues_def EncodeBoundaryValues_def)

lemma NewFile_roundtrip:
  assumes "seqno (smallest f) \<le> seqno (largest f)"
    and "extractor (key (smallest f)) (aux_encode (aux (smallest f))) = Some (aux (smallest f))"
    and "extractor (key (largest f)) (aux_encode (aux (largest f))) = Some (aux (largest f))"
  shows "DecodeNewFile extractor f0 (EncodeNewFile aux_encode (level, f))
         = Inr (level, with_transient_defaults f0 f)"
proof -
  have "f0\<lparr>fd := (fd f)\<lparr>table_reader := None\<rparr>, smallest := smallest f, largest := largest f,
           last_op_id := last_op_id f, imported := imported f,
           compensated_file_size := compensated_file_size f, num_entries := num_entries f,
           num_deletions := num_deletions f, raw_key_size := raw_key_size f,
           raw_value_size := raw_value_size f, init_stats_from_file := init_stats_from_file f,
           marked_for_compaction := marked_for_compaction f\<rparr> = with_transient_defaults f0 f"
    unfolding with_transient_defaults_def by (rule FileMetaData.equality) simp_all
  then show ?thesis
    using assms
    by (simp add: DecodeNewFile_def EncodeNewFile_def Let_def BoundaryValues_roundtrip
        FileDescriptor_reinit GetNumber_le GetPathId_le)
qed

lemma NewFiles_roundtrip:
  assumes "\<forall>p \<in> set fs. seqno (smallest (snd p)) \<le> seqno (largest (snd p)) \<and>
      extractor (key (smallest (snd p))) (aux_encode (aux (smallest (snd p))))
        = Some (aux (smallest (snd p))) \<and>
      extractor (key (largest (snd p))) (aux_encode (aux (largest (snd p))))
        = Some (aux (largest (snd p)))"
  shows "DecodeNewFiles extractor f0 (map (EncodeNewFile aux_encode) fs)
         = Inr (map (\<lambda>p. (fst p, with_transient_defaults f0 (snd p))) fs)"
  using assms
proof (induction fs)
  case Nil
  then show ?case by simp
next
  case (Cons p fs)
  obtain level f where p: "p = (level, f)" by (cases p)
  have "DecodeNewFile extractor f0 (EncodeNewFile aux_encode (level, f))
        = Inr (level, with_transient_defaults f0 f)"
    using Cons.prems by (intro NewFile_roundtrip) (simp_all add: p)
  moreover have "DecodeNewFiles extractor f0 (map (EncodeNewFile aux_encode) fs)
        = Inr (map (\<lambda>p. (fst p, with_transient_defaults f0 (snd p))) fs)"
    using Cons.prems by (intro Cons.IH) simp
  ultimately show ?case
    by (simp add: p)
qed

lemma fset_of_sorted_list: "fset_of_list (sorted_list_of_fset s) = s"
  by (simp add: fset_of_list.abs_eq sorted_list_of_fset.rep_eq fset_inverse)

subsection \<open>The wire format is a codec\<close>

lemma codecI:
  assumes "\<And>x r. g (p x @ r) = Some (x, r)" and "\<And>x s. strict_prefix s (p x) \<Longrightarrow> g s = None"
  shows "codec p g"
  using assms by (simp add: codec_def)

lemma codec_get: "codec p g \<Longrightarrow> g (p x @ r) = Some (x, r)"
  by (simp add: codec_def)

lemma codec_cut: "codec p g \<Longrightarrow> strict_prefix s (p x) \<Longrightarrow> g s = None"
  by (simp add: codec_def)

lemma strict_prefix_append_cases:
  "strict_prefix s (a @ b) \<Longrightarrow> strict_prefix s a \<or> (\<exists>t. s = a @ t \<and> strict_prefix t b)"
proof (induction a arbitrary: s)
  case Nil
  then show ?case by simp
next
  case (Cons x a)
  show ?case
  proof (cases s)
    case Nil
    then show ?thesis by simp
  next
    case (Cons y s')
    with Cons.prems have "y = x" and "strict_prefix s' (a @ b)"
      by simp_all
    with Cons.IH [of s'] show ?thesis
      by (auto simp: Cons)
  qed
qed

lemma of_char_of_small: "n < 256 \<Longrightarrow> of_char (char_of n) = (n :: nat)"
  by (simp add: of_char_of)

lemma get_put_varint: "get_varint (put_varint n @ r) = Some (n, r)"
proof (induction n rule: put_varint.induct)
  case (1 n)
  show ?case
  proof (cases "n < 128")
    case True
    then show ?thesis
      by (subst put_varint.simps) (simp add: of_char_of_small)
  next
    case False
    have c: "of_char (char_of (128 + n mod 128)) = 128 + n mod 128"
      by (rule of_char_of_small) simp
    have "get_varint (put_varint (n div 128) @ r) = Some (n div 128, r)"
      using False by (rule "1.IH")
    then show ?thesis
      using False by (subst put_varint.simps) (simp add: c)
  qed
qed

lemma cut_put_varint: "strict_prefix s (put_varint n) \<Longrightarrow> get_varint s = None"
proof (induction n arbitrary: s rule: put_varint.induct)
  case (1 n)
  show ?case
  proof (cases "n < 128")
    case True
    with "1.prems" have "s = []"
      by (subst (asm) put_varint.simps) (cases s; simp)
    then show ?thesis by simp
  next
    case False
    have c: "of_char (char_of (128 + n mod 128)) = 128 + n mod 128"
      by (rule of_char_of_small) simp
    from "1.prems" False
    have p: "strict_prefix s (char_of (128 + n mod 128) # put_varint (n div 128))"
      by (subst (asm) put_varint.simps) simp
    show ?thesis
    proof (cases s)
      case Nil
      then show ?thesis by simp
    next
      case (Cons y s')
      with p have y: "y = char_of (128 + n mod 128)"
        and s': "strict_prefix s' (put_varint (n div 128))"
        by simp_all
      have "get_varint s' = None"
        using False s' by (rule "1.IH")
      then show ?thesis
        by (simp add: Cons y c)
    qed
  qed
qed

lemma codec_varint: "codec put_varint get_varint"
  by (rule codecI) (simp_all add: get_put_varint cut_put_varint)

lemma codec_word: "codec (put_word :: 'a::len word \<Rightarrow> string) get_word"
proof (rule codecI)
  fix x :: "'a word" and r
  have "unat x < 2 ^ LENGTH('a)"
    by (rule unsigned_less)
  then show "get_word (put_word x @ r) = Some (x, r)"
    by (simp add: get_word_def put_word_def get_put_varint)
next
  fix x :: "'a word" and s
  assume "strict_prefix s (put_word x)"
  then have "get_varint s = None"
    unfolding put_word_def by (rule cut_put_varint)
  then show "(get_word s :: ('a word \<times> string) option) = None"
    by (simp add: get_word_def)
qed

lemma codec_bool: "codec put_bool get_bool"
proof (rule codecI)
  show "get_bool (put_bool x @ r) = Some (x, r)" for x r
    by (simp add: put_bool_def)
  show "get_bool s = None" if "strict_prefix s (put_bool x)" for x s
    using that by (cases s) (simp_all add: put_bool_def)
qed

lemma codec_string: "codec put_string get_string"
proof (rule codecI)
  show "get_string (put_string x @ r) = Some (x, r)" for x r
    by (simp add: get_string_def put_string_def get_put_varint)
  show "get_string s = None" if "strict_prefix s (put_string x)" for x s
  proof -
    from that consider "strict_prefix s (put_varint (length x))"
      | t where "s = put_varint (length x) @ t" and "strict_prefix t x"
      unfolding put_string_def by (auto dest: strict_prefix_append_cases)
    then show ?thesis
    proof cases
      case 1
      then have "get_varint s = None"
        by (rule cut_put_varint)
      then show ?thesis
        by (simp add: get_string_def)
    next
      case 2
      from 2(2) have "length t < length x"
        by (metis prefix_length_less)
      then show ?thesis
        by (simp add: get_string_def 2(1) get_put_varint [of _ t])
    qed
  qed
qed

lemma codec_option:
  assumes "codec p g"
  shows "codec (put_option p) (get_option g)"
proof (rule codecI)
  show "get_option g (put_option p x @ r) = Some (x, r)" for x r
    by (cases x) (simp_all add: codec_get [OF assms])
  show "get_option g s = None" if "strict_prefix s (put_option p x)" for x s
  proof (cases x)
    case None
    with that show ?thesis by (cases s) simp_all
  next
    case (Some y)
    with that show ?thesis
      by (cases s) (simp_all add: codec_cut [OF assms])
  qed
qed

lemma codec_pair:
  assumes a: "codec pa ga" and b: "codec pb gb"
  shows "codec (put_pair pa pb) (get_pair ga gb)"
proof (rule codecI)
  show "get_pair ga gb (put_pair pa pb x @ r) = Some (x, r)" for x r
    by (simp add: get_pair_def put_pair_def codec_get [OF a] codec_get [OF b])
  show "get_pair ga gb s = None" if "strict_prefix s (put_pair pa pb x)" for x s
  proof -
    from that consider "strict_prefix s (pa (fst x))"
      | t where "s = pa (fst x) @ t" and "strict_prefix t (pb (snd x))"
      unfolding put_pair_def by (auto dest: strict_prefix_append_cases)
    then show ?thesis
    proof cases
      case 1
      then show ?thesis
        by (simp add: get_pair_def codec_cut [OF a])
    next
      case 2
      then show ?thesis
        by (simp add: get_pair_def codec_get [OF a] codec_cut [OF b])
    qed
  qed
qed

lemma get_put_items:
  assumes "codec p g"
  shows "get_items g (length xs) (concat (map p xs) @ r) = Some (xs, r)"
  by (induction xs) (simp_all add: codec_get [OF assms])

lemma cut_put_items:
  assumes "codec p g"
  shows "strict_prefix s (concat (map p xs)) \<Longrightarrow> get_items g (length xs) s = None"
proof (induction xs arbitrary: s)
  case Nil
  then show ?case by simp
next
  case (Cons x xs)
  from Cons.prems consider "strict_prefix s (p x)"
    | t where "s = p x @ t" and "strict_prefix t (concat (map p xs))"
    by (auto dest: strict_prefix_append_cases)
  then show ?case
  proof cases
    case 1
    then show ?thesis
      by (simp add: codec_cut [OF assms])
  next
    case 2
    then show ?thesis
      by (simp add: codec_get [OF assms] Cons.IH)
  qed
qed

lemma codec_list:
  assumes "codec p g"
  shows "codec (put_list p) (get_list g)"
proof (rule codecI)
  show "get_list g (put_list p x @ r) = Some (x, r)" for x r
    by (simp add: get_list_def put_list_def get_put_varint get_put_items [OF assms])
  show "get_list g s = None" if "strict_prefix s (put_list p x)" for x s
  proof -
    from that consider "strict_prefix s (put_varint (length x))"
      | t where "s = put_varint (length x) @ t" and "strict_prefix t (concat (map p x))"
      unfolding put_list_def by (auto dest: strict_prefix_append_cases)
    then show ?thesis
    proof cases
      case 1
      then have "get_varint s = None"
        by (rule cut_put_varint)
      then show ?thesis
        by (simp add: get_list_def)
    next
      case 2
      then show ?thesis
        by (simp add: get_list_def get_put_varint [of _ t] cut_put_items [OF assms])
    qed
  qed
qed

lemma codec_map:
  assumes "codec p g" and "\<And>x. f (h x) = x"
  shows "codec (\<lambda>x. p (h x)) (get_map f g)"
proof (rule codecI)
  show "get_map f g (p (h x) @ r) = Some (x, r)" for x r
    by (simp add: get_map_def codec_get [OF assms(1)] assms(2))
  show "get_map f g s = None" if "strict_prefix s (p (h x))" for x s
    using that by (simp add: get_map_def codec_cut [OF assms(1)])
qed

lemma codec_OpId: "codec put_OpId get_OpId"
proof -
  have "codec (\<lambda>x. put_pair put_word put_word (op_term x, op_index x))
      (get_map (\<lambda>(t, i). \<lparr>op_term = t, op_index = i\<rparr>) (get_pair get_word get_word))"
    by (rule codec_map [OF codec_pair [OF codec_word codec_word]]) simp
  moreover have "put_OpId = (\<lambda>x. put_pair put_word put_word (op_term x, op_index x))"
    by (rule ext) (simp add: put_OpId_def)
  ultimately show ?thesis
    by (simp add: get_OpId_def)
qed

lemma codec_BoundaryValuesPB: "codec put_BoundaryValuesPB get_BoundaryValuesPB"
proof -
  have "codec (\<lambda>b. put_pair put_string (put_pair put_string put_word)
                     (pb_key b, pb_aux b, pb_seqno b))
      (get_map (\<lambda>(k, a, s). \<lparr>pb_key = k, pb_aux = a, pb_seqno = s\<rparr>)
         (get_pair get_string (get_pair get_string get_word)))"
    by (rule codec_map [OF codec_pair [OF codec_string codec_pair [OF codec_string codec_word]]])
      simp
  moreover have "put_BoundaryValuesPB = (\<lambda>b. put_pair put_string (put_pair put_string put_word)
                     (pb_key b, pb_aux b, pb_seqno b))"
    by (rule ext) (simp add: put_BoundaryValuesPB_def)
  ultimately show ?thesis
    by (simp add: get_BoundaryValuesPB_def)
qed

lemmas codec_parts =
  codec_pair codec_word codec_bool codec_string codec_option codec_list codec_OpId
  codec_BoundaryValuesPB

lemma codec_NewFilePB: "codec put_NewFilePB get_NewFilePB"
  unfolding put_NewFilePB_def [abs_def] get_NewFilePB_def
  by (rule codec_map) (intro codec_parts, simp)

lemma codec_VersionEditPB: "codec put_VersionEditPB get_VersionEditPB"
  unfolding put_VersionEditPB_def [abs_def] get_VersionEditPB_def
  by (rule codec_map) (intro codec_parts codec_NewFilePB, simp)

lemma wire_parse_serialize: "wire_parse (wire_serialize m) = Some m"
  using codec_get [OF codec_VersionEditPB, of m "[]"]
  by (simp add: wire_parse_def wire_serialize_def)

section \<open>The claims\<close>

subsection \<open>Packed identity\<close>

text \<open>
  C2. Identity packing bijection. For every file number in \<open>[0, 2^62 - 1]\<close> (that is, at
  most \<open>kFileNumberMask\<close>) and every path id in \<open>[0, 3]\<close>, the descriptor constructed
  from them unpacks to the same two numbers: \<open>GetNumber\<close> (mask) returns the file number
  and \<open>GetPathId\<close> (divide by \<open>kFileNumberMask + 1\<close>) returns the path id, the packed
  value being \<open>path_id * (kFileNumberMask + 1) + number\<close>.
\<close>

theorem FileDescriptor_pack_unpack:
  fixes number :: u64 and path_id :: u32
  assumes "number \<le> kFileNumberMask" and "path_id \<le> 3"
  shows "GetNumber (FileDescriptor_init number path_id total_size base_size) = number \<and>
     GetPathId (FileDescriptor_init number path_id total_size base_size) = path_id \<and>
     packed_number_and_path_id (FileDescriptor_init number path_id total_size base_size)
       = ucast path_id * (kFileNumberMask + 1) + number \<and>
     unat kFileNumberMask = 2 ^ 62 - 1"
  using assms
  by (simp add: GetNumber_pack GetPathId_pack)
    (simp add: FileDescriptor_init_def PackFileNumberAndPathId_def kFileNumberMask_def)

theorem FileDescriptor_pack_unpack_witness:
  "(0x3FFFFFFFFFFFFFFF :: u64) \<le> kFileNumberMask \<and> (3 :: u32) \<le> 3 \<and>
   GetNumber (FileDescriptor_init 0x3FFFFFFFFFFFFFFF 3 4096 1024) = 0x3FFFFFFFFFFFFFFF \<and>
   GetPathId (FileDescriptor_init 0x3FFFFFFFFFFFFFFF 3 4096 1024) = 3 \<and>
   packed_number_and_path_id (FileDescriptor_init 0x3FFFFFFFFFFFFFFF 3 4096 1024)
     = 0xFFFFFFFFFFFFFFFF"
proof -
  have n: "(0x3FFFFFFFFFFFFFFF :: u64) \<le> kFileNumberMask"
    by (simp add: kFileNumberMask_def)
  have p: "(3 :: u32) \<le> 3"
    by simp
  show ?thesis
    using n p FileDescriptor_pack_unpack [OF n p, of 4096 1024]
    by (simp add: kFileNumberMask_def)
qed

subsection \<open>Column-family lifecycle and file edits\<close>

text \<open>
  C3, as amended. In any sequence of mutator calls, an \<open>AddColumnFamily\<close> or
  \<open>DropColumnFamily\<close> that comes after an \<open>AddFile\<close>, \<open>AddCleanedFile\<close>, \<open>AddTestFile\<close>
  or \<open>DeleteFile\<close> (other calls may lie before and between) ends in the fatal assertion.
  The file mutators do not look at the lifecycle fields: on an edit that already adds or
  drops a column family, \<open>DeleteFile\<close> inserts its pair and \<open>AddFile\<close> appends its file
  whenever the sequence numbers of the boundaries are in order.
\<close>

theorem lifecycle_after_file_edit_asserts:
  "(is_file_edit m \<and> is_lifecycle c \<longrightarrow>
      run f0 (ms1 @ m # ms2 @ [c]) e = Inl AssertionFailed) \<and>
   (IsColumnFamilyManipulation e \<longrightarrow>
      DeleteFile level file e = e\<lparr>deleted_files := finsert (level, file) (deleted_files e)\<rparr> \<and>
      (seqno (smallest f) \<le> seqno (largest f) \<longrightarrow>
         AddFile level f e = Inr (e\<lparr>new_files := new_files e @ [(level, f)]\<rparr>)))"
  by (simp add: run_file_edit_then_lifecycle DeleteFile_def AddFile_def)

theorem lifecycle_after_file_edit_asserts_witness:
  "is_file_edit (M_DeleteFile 3 100 :: unit mutation) \<and>
   is_lifecycle (M_AddColumnFamily ''cf'' :: unit mutation) \<and>
   run example_default
     ([M_SetLogNumber 4] @ M_DeleteFile 3 100 # [M_SetNextFile 8] @ [M_AddColumnFamily ''cf''])
     example_edit = Inl AssertionFailed \<and>
   IsColumnFamilyManipulation (example_edit\<lparr>is_column_family_drop := True\<rparr>) \<and>
   seqno (smallest (example_file 5 9)) \<le> seqno (largest (example_file 5 9)) \<and>
   AddFile 2 (example_file 5 9) (example_edit\<lparr>is_column_family_drop := True\<rparr>)
     = Inr (example_edit\<lparr>is_column_family_drop := True, new_files := [(2, example_file 5 9)]\<rparr>)"
  using lifecycle_after_file_edit_asserts [of "M_DeleteFile 3 100" "M_AddColumnFamily ''cf''"
      example_default "[M_SetLogNumber 4]" "[M_SetNextFile 8]" example_edit]
    lifecycle_after_file_edit_asserts [of "M_DeleteFile 3 100" "M_AddColumnFamily ''cf''"
      example_default "[]" "[]" "example_edit\<lparr>is_column_family_drop := True\<rparr>" 2 100
      "example_file 5 9"]
  by (simp add: IsColumnFamilyManipulation_def example_edit_def example_file_def)

text \<open>
  The claim as written fails in the converse order: after \<open>AddColumnFamily\<close>, both
  \<open>AddFile\<close> and \<open>DeleteFile\<close> are accepted, and the edit then names a new column family
  and holds two entries.
\<close>

theorem file_edit_after_AddColumnFamily_counterexample:
  "run example_default
     [M_AddColumnFamily ''cf'', M_AddFile 2 (example_file 5 9), M_DeleteFile 3 100] example_edit
     = Inr (example_edit\<lparr>column_family_name := Some ''cf'',
              new_files := [(2, example_file 5 9)], deleted_files := {|(3, 100)|}\<rparr>) \<and>
   IsColumnFamilyAdd (example_edit\<lparr>column_family_name := Some ''cf'',
              new_files := [(2, example_file 5 9)], deleted_files := {|(3, 100)|}\<rparr>) \<and>
   NumEntries (example_edit\<lparr>column_family_name := Some ''cf'',
              new_files := [(2, example_file 5 9)], deleted_files := {|(3, 100)|}\<rparr>) = 2"
  by (simp add: AddColumnFamily_def AddFile_def DeleteFile_def NumEntries_def
      IsColumnFamilyAdd_def example_edit_def example_file_def fcard_finsert_if)

subsection \<open>Adding files\<close>

text \<open>
  C4. Boundary-order precondition on file addition. When the smallest boundary of \<open>f\<close>
  has a greater sequence number than the largest, \<open>AddFile\<close>, \<open>AddCleanedFile\<close> and
  \<open>AddTestFile\<close> (given the same boundary pair) end in the fatal assertion and append
  nothing. When the sequence numbers are in order, the assertion passes and each of the
  three appends one pair at the end of \<open>new_files\<close>.
\<close>

theorem AddFile_boundary_order:
  "(seqno (largest f) < seqno (smallest f) \<longrightarrow>
      AddFile level f e = Inl AssertionFailed \<and>
      AddCleanedFile f0 level f e = Inl AssertionFailed \<and>
      AddTestFile f0 level d (smallest f) (largest f) marked e = Inl AssertionFailed) \<and>
   (seqno (smallest f) \<le> seqno (largest f) \<longrightarrow>
      AddFile level f e = Inr (e\<lparr>new_files := new_files e @ [(level, f)]\<rparr>) \<and>
      (\<exists>nf. AddCleanedFile f0 level f e = Inr (e\<lparr>new_files := new_files e @ [(level, nf)]\<rparr>)) \<and>
      (\<exists>tf. AddTestFile f0 level d (smallest f) (largest f) marked e
             = Inr (e\<lparr>new_files := new_files e @ [(level, tf)]\<rparr>)))"
  by (simp add: AddFile_def AddCleanedFile_def AddTestFile_def Let_def not_le) blast

theorem AddFile_boundary_order_witness:
  "AddFile 2 (example_file 9 5) example_edit = Inl AssertionFailed \<and>
   AddCleanedFile example_default 2 (example_file 9 5) example_edit = Inl AssertionFailed \<and>
   AddFile 2 (example_file 5 9) example_edit
     = Inr (example_edit\<lparr>new_files := [(2, example_file 5 9)]\<rparr>)"
  using AddFile_boundary_order [of "example_file 9 5" 2 example_edit example_default]
    AddFile_boundary_order [of "example_file 5 9" 2 example_edit example_default]
  by (simp add: example_file_def example_edit_def)

text \<open>
  C7. \<open>AddCleanedFile\<close> strips transient state. For a file whose boundary sequence numbers
  are in order, the appended record has a null table reader, and its reference count,
  being-compacted flag, reader handle, compensated size and statistics are those of a
  default-constructed \<open>FileMetaData\<close> (\<open>f0\<close>); the packed identity and the sizes of the
  descriptor, both boundaries, the last op id, the imported flag and the
  marked-for-compaction flag are those of \<open>f\<close>.
\<close>

theorem AddCleanedFile_strips_transient:
  assumes "seqno (smallest f) \<le> seqno (largest f)"
  shows "\<exists>nf. AddCleanedFile f0 level f e = Inr (e\<lparr>new_files := new_files e @ [(level, nf)]\<rparr>) \<and>
     table_reader (fd nf) = None \<and>
     refs nf = refs f0 \<and> being_compacted nf = being_compacted f0 \<and>
     table_reader_handle nf = table_reader_handle f0 \<and>
     compensated_file_size nf = compensated_file_size f0 \<and>
     num_entries nf = num_entries f0 \<and> num_deletions nf = num_deletions f0 \<and>
     raw_key_size nf = raw_key_size f0 \<and> raw_value_size nf = raw_value_size f0 \<and>
     init_stats_from_file nf = init_stats_from_file f0 \<and>
     packed_number_and_path_id (fd nf) = packed_number_and_path_id (fd f) \<and>
     GetNumber (fd nf) = GetNumber (fd f) \<and> GetPathId (fd nf) = GetPathId (fd f) \<and>
     total_file_size (fd nf) = total_file_size (fd f) \<and>
     base_file_size (fd nf) = base_file_size (fd f) \<and>
     smallest nf = smallest f \<and> largest nf = largest f \<and> last_op_id nf = last_op_id f \<and>
     imported nf = imported f \<and> marked_for_compaction nf = marked_for_compaction f"
  using assms
  apply (simp add: AddCleanedFile_def Let_def GetNumber_def GetPathId_def)
  apply (intro exI conjI)
  apply (rule refl)
  apply simp_all
  done

theorem AddCleanedFile_strips_transient_witness:
  "seqno (smallest (example_file 5 9)) \<le> seqno (largest (example_file 5 9)) \<and>
   (\<exists>nf. AddCleanedFile example_default 2 (example_file 5 9) example_edit
          = Inr (example_edit\<lparr>new_files := new_files example_edit @ [(2, nf)]\<rparr>) \<and>
     table_reader (fd nf) = None \<and> refs nf = 0 \<and> being_compacted nf = False \<and>
     table_reader_handle nf = None \<and> num_entries nf = 0 \<and>
     last_op_id nf = \<lparr>op_term = 2, op_index = 40\<rparr> \<and> imported nf = True)"
proof -
  have h: "seqno (smallest (example_file 5 9)) \<le> seqno (largest (example_file 5 9))"
    by (simp add: example_file_def)
  show ?thesis
    using h AddCleanedFile_strips_transient [OF h, of example_default 2 example_edit]
    by (auto simp: example_default_def example_file_def)
qed

text \<open>
  C10. \<open>AddFile\<close> stores its argument verbatim. For a file whose boundary sequence numbers
  are in order, the pair that \<open>AddFile\<close> appends holds \<open>f\<close> itself, with its table reader,
  reference count, being-compacted flag, compensated size and statistics unchanged;
  \<open>AddCleanedFile\<close> and \<open>AddTestFile\<close> both store a descriptor whose table reader is null.
\<close>

theorem AddFile_stores_verbatim:
  "(seqno (smallest f) \<le> seqno (largest f) \<longrightarrow>
      AddFile level f e = Inr (e\<lparr>new_files := new_files e @ [(level, f)]\<rparr>) \<and>
      (\<exists>nf. AddCleanedFile f0 level f e = Inr (e\<lparr>new_files := new_files e @ [(level, nf)]\<rparr>) \<and>
         table_reader (fd nf) = None)) \<and>
   (seqno sm \<le> seqno lg \<longrightarrow>
      (\<exists>tf. AddTestFile f0 level d sm lg marked e
             = Inr (e\<lparr>new_files := new_files e @ [(level, tf)]\<rparr>) \<and>
         table_reader (fd tf) = None))"
  apply (simp add: AddFile_def AddCleanedFile_def AddTestFile_def Let_def)
  apply (intro exI conjI impI)
  apply (rule refl)
  apply simp
  apply (rule refl)
  apply simp
  done

theorem AddFile_stores_verbatim_witness:
  "AddFile 2 (example_file 5 9) example_edit
     = Inr (example_edit\<lparr>new_files := [(2, example_file 5 9)]\<rparr>) \<and>
   table_reader (fd (example_file 5 9)) = Some 1 \<and> refs (example_file 5 9) = 1 \<and>
   (\<exists>nf. AddCleanedFile example_default 2 (example_file 5 9) example_edit
         = Inr (example_edit\<lparr>new_files := [(2, nf)]\<rparr>) \<and> table_reader (fd nf) = None) \<and>
   (\<exists>tf. AddTestFile example_default 2 (fd (example_file 5 9)) (smallest (example_file 5 9))
           (largest (example_file 5 9)) True example_edit
         = Inr (example_edit\<lparr>new_files := [(2, tf)]\<rparr>) \<and> table_reader (fd tf) = None)"
  using AddFile_stores_verbatim [of "example_file 5 9" 2 example_edit example_default
      "smallest (example_file 5 9)" "largest (example_file 5 9)" "fd (example_file 5 9)" True]
  by (simp add: example_edit_def example_file_def)

subsection \<open>Counting and deleting\<close>

text \<open>
  C9. \<open>NumEntries\<close> counts additions plus deletions: it is the length of the list of new
  files plus the cardinality of the set of deleted files. On an edit without entries,
  \<open>AddFile 2 f\<close> (sequence numbers in order) succeeds, after which \<open>NumEntries\<close> is 1 and
  \<open>GetNewFiles\<close> is the single pair \<open>(2, f)\<close>.
\<close>

theorem NumEntries_counts:
  "NumEntries e = length (GetNewFiles e) + fcard (GetDeletedFiles e) \<and>
   (new_files e = [] \<and> deleted_files e = {||} \<and> seqno (smallest f) \<le> seqno (largest f) \<longrightarrow>
      (\<exists>e'. AddFile 2 f e = Inr e' \<and> NumEntries e' = 1 \<and> GetNewFiles e' = [(2, f)]))"
  by (simp add: NumEntries_def GetNewFiles_def GetDeletedFiles_def AddFile_def)

theorem NumEntries_counts_witness:
  "new_files example_edit = [] \<and> deleted_files example_edit = {||} \<and>
   seqno (smallest (example_file 5 9)) \<le> seqno (largest (example_file 5 9)) \<and>
   (\<exists>e'. AddFile 2 (example_file 5 9) example_edit = Inr e' \<and> NumEntries e' = 1 \<and>
      GetNewFiles e' = [(2, example_file 5 9)])"
  using NumEntries_counts [of example_edit "example_file 5 9"]
  by (simp add: example_edit_def example_file_def)

text \<open>
  C6. \<open>DeleteFile\<close> is idempotent with set semantics. Calling it twice with the same level
  and file number gives the same edit as calling it once; two calls of \<open>DeleteFile 3 100\<close>
  on an edit without deletions give a deletion set of size 1; and after any sequence of
  mutator calls that runs to its end, the size of the deletion set is the number of
  distinct pairs among those it held before and those passed to \<open>DeleteFile\<close>, so no pair
  is ever held twice.
\<close>

theorem DeleteFile_idempotent:
  "DeleteFile level file (DeleteFile level file e) = DeleteFile level file e \<and>
   (deleted_files e = {||} \<longrightarrow>
      fcard (GetDeletedFiles (DeleteFile 3 100 (DeleteFile 3 100 e))) = 1) \<and>
   (run f0 ms e = Inr e' \<longrightarrow>
      fcard (deleted_files e') = card (fset (deleted_files e) \<union> set (deletions ms)))"
proof (intro conjI impI)
  show "DeleteFile level file (DeleteFile level file e) = DeleteFile level file e"
    by (simp add: DeleteFile_def)
  show "fcard (GetDeletedFiles (DeleteFile 3 100 (DeleteFile 3 100 e))) = 1"
    if "deleted_files e = {||}"
    using that by (simp add: DeleteFile_def GetDeletedFiles_def fcard_finsert_if)
  show "fcard (deleted_files e') = card (fset (deleted_files e) \<union> set (deletions ms))"
    if "run f0 ms e = Inr e'"
    by (simp add: deleted_files_run [OF that] fcard.rep_eq fset_of_list.rep_eq)
qed

theorem DeleteFile_idempotent_witness:
  "deleted_files example_edit = {||} \<and>
   fcard (GetDeletedFiles (DeleteFile 3 100 (DeleteFile 3 100 example_edit))) = 1 \<and>
   run example_default [M_DeleteFile 3 100, M_DeleteFile 1 7, M_DeleteFile 3 100] example_edit
     = Inr (example_edit\<lparr>deleted_files := {|(3, 100), (1, 7)|}\<rparr>) \<and>
   fcard {|(3 :: i32, 100 :: u64), (1, 7)|} = 2"
  using DeleteFile_idempotent [of 3 100 example_edit example_default
      "[M_DeleteFile 3 100, M_DeleteFile 1 7, M_DeleteFile 3 100]"
      "example_edit\<lparr>deleted_files := {|(3, 100), (1, 7)|}\<rparr>"]
  by (auto simp: example_edit_def DeleteFile_def fcard_finsert_if)

subsection \<open>Encoding and decoding\<close>

text \<open>
  C1. Encode/decode round trip. For every well-formed edit, with an extractor that reads
  back the auxiliary values of the edit's boundaries and a wire library that reads back
  the edit's message, \<open>AppendEncodedTo\<close> on an empty buffer succeeds and \<open>DecodeFrom\<close> on
  its bytes succeeds with a record equal to the edit in every optional field (present or
  absent alike), the flushed op id, the deletion set, the column-family fields and the list
  of new files in insertion order, each file equal to the original in every persisted
  member, with the transient members (reference count, table reader, reader handle,
  being-compacted flag) at their defaults.
\<close>

theorem encode_decode_roundtrip:
  assumes wf: "well_formed e"
    and ex: "\<forall>p \<in> set (new_files e).
      extractor (key (smallest (snd p))) (aux_encode (aux (smallest (snd p))))
        = Some (aux (smallest (snd p))) \<and>
      extractor (key (largest (snd p))) (aux_encode (aux (largest (snd p))))
        = Some (aux (largest (snd p)))"
    and wire: "\<forall>pb. EncodeTo aux_encode e = Some pb \<longrightarrow> parse (serialize pb) = Some pb"
  shows "\<exists>bytes. AppendEncodedTo aux_encode serialize e [] = (True, bytes) \<and>
     DecodeFrom extractor f0 parse bytes r
       = Inr (e\<lparr>max_level := max_level r,
                new_files := map (\<lambda>p. (fst p, with_transient_defaults f0 (snd p))) (new_files e)\<rparr>)"
proof -
  from wf have excl: "\<not> (column_family_name e \<noteq> None \<and> is_column_family_drop e)"
    and pure: "column_family_name e \<noteq> None \<or> is_column_family_drop e \<Longrightarrow>
               new_files e = [] \<and> deleted_files e = {||}"
    and seq: "\<forall>p \<in> set (new_files e). seqno (smallest (snd p)) \<le> seqno (largest (snd p))"
    by (auto simp: well_formed_def IsColumnFamilyAdd_def IsColumnFamilyManipulation_def)
  obtain pb where pb: "EncodeTo aux_encode e = Some pb"
    using excl by (auto simp: EncodeTo_def)
  have bytes: "AppendEncodedTo aux_encode serialize e [] = (True, serialize pb)"
    by (simp add: AppendEncodedTo_def pb)
  have parse: "parse (serialize pb) = Some pb"
    using wire pb by simp
  have files: "DecodeNewFiles extractor f0 (pb_new_files pb)
        = Inr (map (\<lambda>p. (fst p, with_transient_defaults f0 (snd p))) (new_files e))"
  proof -
    have "pb_new_files pb = map (EncodeNewFile aux_encode) (new_files e)"
      using pb by (auto simp: EncodeTo_def split: if_splits)
    then show ?thesis
      using seq ex by (simp add: NewFiles_roundtrip)
  qed
  have fields: "pb_comparator pb = comparator e" "pb_log_number pb = log_number e"
    "pb_prev_log_number pb = prev_log_number e" "pb_next_file_number pb = next_file_number e"
    "pb_max_column_family pb = max_column_family e" "pb_last_sequence pb = last_sequence e"
    "pb_flushed_op_id pb = flushed_op_id e"
    "pb_deleted_files pb = sorted_list_of_fset (deleted_files e)"
    "pb_column_family pb = column_family e"
    "pb_column_family_name pb = column_family_name e"
    "pb_is_column_family_drop pb = is_column_family_drop e"
    "pb_new_files pb = map (EncodeNewFile aux_encode) (new_files e)"
    using pb by (auto simp: EncodeTo_def split: if_splits)
  have no_conflict: "\<not> ((pb_column_family_name pb \<noteq> None \<or> pb_is_column_family_drop pb)
      \<and> (pb_new_files pb \<noteq> [] \<or> pb_deleted_files pb \<noteq> []))"
  proof (cases "column_family_name e \<noteq> None \<or> is_column_family_drop e")
    case True
    then have "new_files e = [] \<and> deleted_files e = {||}"
      by (rule pure)
    then show ?thesis
      by (simp add: fields sorted_list_of_fset.rep_eq)
  next
    case False
    then show ?thesis
      by (simp add: fields)
  qed
  have no_both: "\<not> (pb_column_family_name pb \<noteq> None \<and> pb_is_column_family_drop pb)"
    using excl by (simp add: fields(10,11))
  have "DecodeFrom extractor f0 parse (serialize pb) r
       = Inr \<lparr>max_level = max_level r,
                    comparator = pb_comparator pb,
                    log_number = pb_log_number pb,
                    prev_log_number = pb_prev_log_number pb,
                    next_file_number = pb_next_file_number pb,
                    max_column_family = pb_max_column_family pb,
                    last_sequence = pb_last_sequence pb,
                    flushed_op_id = pb_flushed_op_id pb,
                    deleted_files = fset_of_list (pb_deleted_files pb),
                    new_files = map (\<lambda>p. (fst p, with_transient_defaults f0 (snd p))) (new_files e),
                    column_family = pb_column_family pb,
                    is_column_family_drop = pb_is_column_family_drop pb,
                    column_family_name = pb_column_family_name pb\<rparr>"
    by (simp only: DecodeFrom_def parse option.case no_both no_conflict if_False files sum.case)
  also have "\<lparr>max_level = max_level r,
                    comparator = pb_comparator pb,
                    log_number = pb_log_number pb,
                    prev_log_number = pb_prev_log_number pb,
                    next_file_number = pb_next_file_number pb,
                    max_column_family = pb_max_column_family pb,
                    last_sequence = pb_last_sequence pb,
                    flushed_op_id = pb_flushed_op_id pb,
                    deleted_files = fset_of_list (pb_deleted_files pb),
                    new_files = map (\<lambda>p. (fst p, with_transient_defaults f0 (snd p))) (new_files e),
                    column_family = pb_column_family pb,
                    is_column_family_drop = pb_is_column_family_drop pb,
                    column_family_name = pb_column_family_name pb\<rparr>
      = e\<lparr>max_level := max_level r,
                new_files := map (\<lambda>p. (fst p, with_transient_defaults f0 (snd p))) (new_files e)\<rparr>"
    by (rule VersionEdit.equality) (simp_all add: fields(1-11) fset_of_sorted_list)
  finally show ?thesis
    using bytes by blast
qed

theorem encode_decode_roundtrip_witness:
  "well_formed example_record \<and>
   example_aux_decode ''a'' (example_aux_encode ()) = Some () \<and>
   (\<exists>bytes. AppendEncodedTo example_aux_encode wire_serialize example_record [] = (True, bytes) \<and>
      DecodeFrom example_aux_decode example_default wire_parse bytes example_edit
        = Inr (example_record\<lparr>new_files :=
            [(2, (example_file 5 9)\<lparr>refs := 0,
                   fd := (fd (example_file 5 9))\<lparr>table_reader := None\<rparr>,
                   being_compacted := False, table_reader_handle := None\<rparr>)]\<rparr>))"
proof -
  have wf: "well_formed example_record"
    by (simp add: well_formed_def example_record_def example_edit_def example_file_def
        IsColumnFamilyAdd_def IsColumnFamilyManipulation_def)
  have ex: "\<forall>p \<in> set (new_files example_record).
      example_aux_decode (key (smallest (snd p))) (example_aux_encode (aux (smallest (snd p))))
        = Some (aux (smallest (snd p))) \<and>
      example_aux_decode (key (largest (snd p))) (example_aux_encode (aux (largest (snd p))))
        = Some (aux (largest (snd p)))"
    by (simp add: example_aux_decode_def example_aux_encode_def)
  have wire: "\<forall>pb. EncodeTo example_aux_encode example_record = Some pb \<longrightarrow>
      wire_parse (wire_serialize pb) = Some pb"
    by (simp add: wire_parse_serialize)
  from encode_decode_roundtrip [OF wf ex wire, of example_default example_edit]
  obtain bytes where
    enc: "AppendEncodedTo example_aux_encode wire_serialize example_record [] = (True, bytes)"
    and dec: "DecodeFrom example_aux_decode example_default wire_parse bytes example_edit
      = Inr (example_record\<lparr>max_level := max_level example_edit,
               new_files := map (\<lambda>p. (fst p, with_transient_defaults example_default (snd p)))
                 (new_files example_record)\<rparr>)"
    by blast
  have "example_record\<lparr>max_level := max_level example_edit,
               new_files := map (\<lambda>p. (fst p, with_transient_defaults example_default (snd p)))
                 (new_files example_record)\<rparr>
      = example_record\<lparr>new_files :=
            [(2, (example_file 5 9)\<lparr>refs := 0,
                   fd := (fd (example_file 5 9))\<lparr>table_reader := None\<rparr>,
                   being_compacted := False, table_reader_handle := None\<rparr>)]\<rparr>"
    by (simp add: with_transient_defaults_def example_record_def example_edit_def example_default_def)
  with dec have "DecodeFrom example_aux_decode example_default wire_parse bytes example_edit
      = Inr (example_record\<lparr>new_files :=
            [(2, (example_file 5 9)\<lparr>refs := 0,
                   fd := (fd (example_file 5 9))\<lparr>table_reader := None\<rparr>,
                   being_compacted := False, table_reader_handle := None\<rparr>)]\<rparr>)"
    by simp
  with enc have "\<exists>bytes.
      AppendEncodedTo example_aux_encode wire_serialize example_record [] = (True, bytes) \<and>
      DecodeFrom example_aux_decode example_default wire_parse bytes example_edit
        = Inr (example_record\<lparr>new_files :=
            [(2, (example_file 5 9)\<lparr>refs := 0,
                   fd := (fd (example_file 5 9))\<lparr>table_reader := None\<rparr>,
                   being_compacted := False, table_reader_handle := None\<rparr>)]\<rparr>)"
    by blast
  moreover have "example_aux_decode ''a'' (example_aux_encode ()) = Some ()"
    by (simp add: example_aux_decode_def example_aux_encode_def)
  ultimately show ?thesis
    using wf by (intro conjI)
qed

end
